theory Spec2Isabelle
  imports Main
begin

section \<open>Results of Go functions\<close>

text \<open>
  A Go function of this package either returns or panics. A returned \<open>error\<close> is an
  ordinary value (the last component of the result tuple, \<open>None\<close> for \<open>nil\<close>);
  a panic is kept apart from it.
\<close>

datatype panic =
    NilTokenFile            \<comment> \<open>\<open>panic("nil *token.File")\<close>\<close>
  | InvalidStartPos         \<comment> \<open>\<open>panic("invalid start token.Pos")\<close>\<close>
  | IllegalLineNumber       \<comment> \<open>go/token, \<open>File.LineStart\<close>\<close>
  | InvalidFileOffset       \<comment> \<open>go/token, \<open>File.Pos\<close>\<close>
  | InvalidPosValue         \<comment> \<open>go/token, \<open>File.PositionFor\<close>\<close>
  | OffsetNotSet            \<comment> \<open>\<open>Point.Offset\<close> on a point without offset\<close>

datatype 'a outcome = Ret 'a | Panic panic

datatype error =
    ErrStartPosNotValid               \<comment> \<open>"start pos is not valid"\<close>
  | ErrSpanFiles string string        \<comment> \<open>"span begins in file %q but ends in %q"\<close>
  | ErrBeyondEOF int int string       \<comment> \<open>"offset %d is beyond EOF (%d) in file %s"\<close>
  | ErrInvalidPos int int int         \<comment> \<open>"invalid pos: %d not in [%d, %d]"\<close>
  | BugStartPastEnd int int           \<comment> \<open>"start offset %v is past the end of the file %v"\<close>
  | BugEndPastEnd int int             \<comment> \<open>"end offset %v is past the end of the file %v"\<close>
  | ErrInvalidLine int                \<comment> \<open>"invalid line: %d"\<close>
  | ErrLineBeyondEOF int int          \<comment> \<open>"line %d is beyond end of file %v"\<close>
  | ErrColumnBeyondEOF                \<comment> \<open>"column is beyond end of file"\<close>
  | BugLineNotInFile                  \<comment> \<open>"line is not in file"\<close>
  | ErrToOffsetColumn int             \<comment> \<open>"ToOffset: column %d is beyond end of file"\<close>
  | ErrInvalidSpan                    \<comment> \<open>"cannot add information to an invalid span"\<close>

text \<open>
  Go's \<open>int\<close> has 64 bits and wraps silently. go/token keeps \<open>base + size\<close> of every
  file representable, so the only arithmetic of this package that can leave the range is
  the addition of a caller-supplied column in \<open>ToOffset\<close>; it is wrapped explicitly.
\<close>

definition wrap64 :: "int \<Rightarrow> int" where
  "wrap64 x = (x + 2 ^ 63) mod 2 ^ 64 - 2 ^ 63"

section \<open>go/token: positions and files\<close>

type_synonym Pos = int

definition NoPos :: Pos where
  "NoPos = 0"

definition IsValid :: "Pos \<Rightarrow> bool" where
  "IsValid p = (p \<noteq> NoPos)"

text \<open>A \<open>//line\<close> directive recorded in a file (\<open>token.lineInfo\<close>).\<close>

record lineInfo =
  iOffset :: int
  iFilename :: string
  iLine :: int
  iColumn :: int

text \<open>
  \<open>token.File\<close>: name, base and size, the table of line-start offsets, and the table
  of line directives.
\<close>

record File =
  f_name :: string
  f_base :: int
  f_size :: int
  f_lines :: "int list"
  f_infos :: "lineInfo list"

text \<open>\<open>token.Position\<close>.\<close>

record Position =
  Filename :: string
  Offset :: int
  Line :: int
  Column :: int

definition Name :: "File \<Rightarrow> string" where
  "Name f = f_name f"

definition Base :: "File \<Rightarrow> int" where
  "Base f = f_base f"

definition Size :: "File \<Rightarrow> int" where
  "Size f = f_size f"

definition LineCount :: "File \<Rightarrow> int" where
  "LineCount f = int (length (f_lines f))"

text \<open>\<open>File.LineStart\<close> panics on a line number outside \<open>1 .. LineCount\<close>.\<close>

definition LineStart :: "File \<Rightarrow> int \<Rightarrow> Pos outcome" where
  "LineStart f line =
     (if line < 1 then Panic IllegalLineNumber
      else if line > int (length (f_lines f)) then Panic IllegalLineNumber
      else Ret (f_base f + f_lines f ! nat (line - 1)))"

text \<open>\<open>File.Pos\<close> panics on an offset larger than the file's size.\<close>

definition Pos :: "File \<Rightarrow> int \<Rightarrow> Pos outcome" where
  "Pos f offset =
     (if offset > f_size f then Panic InvalidFileOffset
      else Ret (f_base f + offset))"

text \<open>
  \<open>searchInts a x\<close> is the binary search of go/token: on a sorted table it returns the
  index of the last entry \<open>\<le> x\<close>, and \<open>-1\<close> when there is none.
\<close>

function searchInts_loop :: "int list \<Rightarrow> int \<Rightarrow> nat \<Rightarrow> nat \<Rightarrow> nat" where
  "searchInts_loop a x i j =
     (if i < j then
        (let h = (i + j) div 2
         in if a ! h \<le> x then searchInts_loop a x (h + 1) j
            else searchInts_loop a x i h)
      else i)"
  by pat_completeness auto
termination
  by (relation "measure (\<lambda>(a, x, i, j). j - i)") auto

declare searchInts_loop.simps [simp del]

definition searchInts :: "int list \<Rightarrow> int \<Rightarrow> int" where
  "searchInts a x = int (searchInts_loop a x 0 (length a)) - 1"

definition searchLineInfos :: "lineInfo list \<Rightarrow> int \<Rightarrow> int" where
  "searchLineInfos a x = searchInts (map iOffset a) x"

text \<open>
  \<open>File.unpack\<close>: file name, line and column of an offset; with \<open>adjusted\<close>, the last
  line directive at or before the offset overrides them.
\<close>

definition unpack :: "File \<Rightarrow> int \<Rightarrow> bool \<Rightarrow> string \<times> int \<times> int" where
  "unpack f offset adjusted =
     (let filename = f_name f;
          i = searchInts (f_lines f) offset;
          line = (if i \<ge> 0 then i + 1 else 0);
          column = (if i \<ge> 0 then offset - f_lines f ! nat i + 1 else 0)
      in if adjusted \<and> f_infos f \<noteq> [] then
           (let k = searchLineInfos (f_infos f) offset
            in if k \<ge> 0 then
                 (let alt = f_infos f ! nat k;
                      j = searchInts (f_lines f) (iOffset alt)
                  in if j \<ge> 0 then
                       (let d = line - (j + 1)
                        in (iFilename alt, iLine alt + d,
                            if iColumn alt = 0 then 0
                            else if d = 0 then iColumn alt + (offset - iOffset alt)
                            else column))
                     else (iFilename alt, line, column))
               else (filename, line, column))
         else (filename, line, column))"

definition position_of :: "File \<Rightarrow> Pos \<Rightarrow> bool \<Rightarrow> Position" where
  "position_of f p adjusted =
     (let offset = p - f_base f;
          (filename, line, column) = unpack f offset adjusted
      in \<lparr>Filename = filename, Offset = offset, Line = line, Column = column\<rparr>)"

text \<open>
  \<open>File.PositionFor\<close>: the zero Position for \<open>NoPos\<close>, a panic for any other value
  outside \<open>[base, base + size]\<close>.
\<close>

definition PositionFor :: "File \<Rightarrow> Pos \<Rightarrow> bool \<Rightarrow> Position outcome" where
  "PositionFor f p adjusted =
     (if p \<noteq> NoPos then
        (if p < f_base f \<or> p > f_base f + f_size f then Panic InvalidPosValue
         else Ret (position_of f p adjusted))
      else Ret \<lparr>Filename = [], Offset = 0, Line = 0, Column = 0\<rparr>)"

text \<open>
  Modelled from the spec: \<open>safetoken.Position\<close> (package gopls/internal/lsp/safetoken) is
  not among the sources. It is the lookup the spec calls \<open>position(offset) -> location\<close>
  of the Addressable File: it delegates to \<open>File.PositionFor\<close>, after moving a position
  one byte past the end of the file back to the end (a position that
  \<open>positionFromOffset\<close> never passes). Whether it applies line directives is not
  visible from the sources, so it is the parameter \<open>adj\<close>.
\<close>

definition safetoken_Position :: "bool \<Rightarrow> File \<Rightarrow> Pos \<Rightarrow> Position outcome" where
  "safetoken_Position adj f pos =
     PositionFor f (if pos = Base f + Size f + 1 then pos - 1 else pos) adj"

section \<open>Package span: token positions, offsets, lines and columns\<close>

definition offset :: "File \<Rightarrow> Pos \<Rightarrow> int \<times> error option" where
  "offset tf pos =
     (if pos < Base tf \<or> pos > Base tf + Size tf
      then (0, Some (ErrInvalidPos pos (Base tf) (Base tf + Size tf)))
      else (pos - Base tf, None))"

definition positionFromOffset ::
    "bool \<Rightarrow> File \<Rightarrow> int \<Rightarrow> (string \<times> int \<times> int \<times> error option) outcome" where
  "positionFromOffset adj tf off =
     (if off > Size tf then Ret ([], 0, 0, Some (ErrBeyondEOF off (Size tf) (Name tf)))
      else case Pos tf off of
             Panic e \<Rightarrow> Panic e
           | Ret pos \<Rightarrow>
               (case safetoken_Position adj tf pos of
                  Panic e \<Rightarrow> Panic e
                | Ret p \<Rightarrow>
                    if off = Size tf then Ret (Filename p, Line p + 1, 1, None)
                    else Ret (Filename p, Line p, Column p, None)))"

definition position ::
    "bool \<Rightarrow> File \<Rightarrow> Pos \<Rightarrow> (string \<times> int \<times> int \<times> error option) outcome" where
  "position adj tf pos =
     (case offset tf pos of
        (off, Some err) \<Rightarrow> Ret ([], 0, 0, Some err)
      | (off, None) \<Rightarrow> positionFromOffset adj tf off)"

definition OffsetToLineCol8 ::
    "bool \<Rightarrow> File \<Rightarrow> int \<Rightarrow> (int \<times> int \<times> error option) outcome" where
  "OffsetToLineCol8 adj tf off =
     (case positionFromOffset adj tf off of
        Panic e \<Rightarrow> Panic e
      | Ret (_, line, col8, err) \<Rightarrow> Ret (line, col8, err))"

section \<open>Points and spans\<close>

text \<open>
  Modelled from the spec: the types \<open>point\<close> and \<open>span\<close> and their helpers (file span.go
  of this package) are not among the sources. A Point is \<open>{line, column, offset}\<close>, with
  line and column counted from 1 and the offset from 0; it may be supplied as line and
  column only or as offset only, and the missing part is derived on demand. A field that
  is not supplied is \<open>0\<close> for line and column and negative for the offset. A Span is a
  file identity with a start and an end Point; an omitted end defaults to the start.
\<close>

record point =
  pLine :: int
  pColumn :: int
  pOffset :: int

record Span =
  sURI :: string
  sStart :: point
  sEnd :: point

definition point0 :: point where
  "point0 = \<lparr>pLine = 0, pColumn = 0, pOffset = 0\<rparr>"

definition Span0 :: Span where
  "Span0 = \<lparr>sURI = [], sStart = point0, sEnd = point0\<rparr>"

text \<open>
  Modelled from the spec: a Point has a position when its line was supplied, an offset
  when its offset was supplied, and is valid when it has either.
\<close>

definition hasPosition :: "point \<Rightarrow> bool" where
  "hasPosition p = (pLine p > 0)"

definition hasOffset :: "point \<Rightarrow> bool" where
  "hasOffset p = (pOffset p \<ge> 0)"

definition isValid :: "point \<Rightarrow> bool" where
  "isValid p = (hasPosition p \<or> hasOffset p)"

text \<open>
  Modelled from the spec: \<open>point.clean\<close> normalises a Point. A zero offset next to a
  line or column beyond 1 was never supplied, and is marked as missing.
\<close>

definition point_clean :: "point \<Rightarrow> point" where
  "point_clean p =
     (let p1 = (if pLine p < 0 then p\<lparr>pLine := 0\<rparr> else p);
          p2 = (if pColumn p1 \<le> 0
                then (if pLine p1 > 0 then p1\<lparr>pColumn := 1\<rparr> else p1\<lparr>pColumn := 0\<rparr>)
                else p1)
      in if pOffset p2 = 0 \<and> (pLine p2 > 1 \<or> pColumn p2 > 1)
         then p2\<lparr>pOffset := - 1\<rparr> else p2)"

text \<open>Modelled from the spec: \<open>span.clean\<close>; an omitted end defaults to the start.\<close>

definition span_clean :: "Span \<Rightarrow> Span" where
  "span_clean s =
     (if \<not> isValid (sEnd s) \<or> sEnd s = point0 then s\<lparr>sEnd := sStart s\<rparr> else s)"

text \<open>
  Modelled from the spec: \<open>Point.Offset\<close> reads the offset of a Point, and panics when
  the Point has none.
\<close>

definition Point_Offset :: "point \<Rightarrow> int outcome" where
  "Point_Offset p = (if \<not> hasOffset p then Panic OffsetNotSet else Ret (pOffset p))"

section \<open>Lines and columns to offsets\<close>

definition ToOffset :: "File \<Rightarrow> int \<Rightarrow> int \<Rightarrow> (int \<times> error option) outcome" where
  "ToOffset tf line col =
     (if line < 1 then Ret (- 1, Some (ErrInvalidLine line))
      else
        (let lineMax = LineCount tf + 1
         in if line > lineMax then Ret (- 1, Some (ErrLineBeyondEOF line lineMax))
            else if line = lineMax then
              (if col > 1 then Ret (- 1, Some ErrColumnBeyondEOF)
               else Ret (Size tf, None))
            else
              (case LineStart tf line of
                 Panic e \<Rightarrow> Panic e
               | Ret pos \<Rightarrow>
                   if \<not> IsValid pos then Ret (- 1, Some BugLineNotInFile)
                   else
                     (let pos' = wrap64 (pos + wrap64 (col - 1))
                      in if pos' > Base tf + Size tf
                         then Ret (0, Some (ErrToOffsetColumn col))
                         else Ret (offset tf pos')))))"

text \<open>
  Modelled from the spec: \<open>point.updateOffset\<close> derives the offset of a Point from its
  line and column in the given file.
\<close>

definition updateOffset :: "point \<Rightarrow> File \<Rightarrow> (point \<times> error option) outcome" where
  "updateOffset p tf =
     (case ToOffset tf (pLine p) (pColumn p) of
        Panic e \<Rightarrow> Panic e
      | Ret (off, Some err) \<Rightarrow> Ret (p, Some err)
      | Ret (off, None) \<Rightarrow> Ret (p\<lparr>pOffset := off\<rparr>, None))"

text \<open>
  Modelled from the spec: \<open>Span.WithOffset\<close> resolves the offsets of a Span against a
  file. An invalid Span is an error. The offsets are derived from the lines and columns
  when the start has no offset, or when the end has a line but no offset; an end on the
  start's line and column takes the start's offset. Offsets that are already there are
  kept.
\<close>

definition WithOffset :: "Span \<Rightarrow> File \<Rightarrow> (Span \<times> error option) outcome" where
  "WithOffset s tf =
     (if \<not> isValid (sStart s) then Ret (Span0, Some ErrInvalidSpan)
      else if \<not> hasOffset (sStart s) \<or> (hasPosition (sEnd s) \<and> \<not> hasOffset (sEnd s)) then
        (case updateOffset (sStart s) tf of
           Panic e \<Rightarrow> Panic e
         | Ret (st, Some err) \<Rightarrow> Ret (Span0, Some err)
         | Ret (st, None) \<Rightarrow>
             if pLine (sEnd s) \<noteq> pLine st \<or> pColumn (sEnd s) \<noteq> pColumn st then
               (case updateOffset (sEnd s) tf of
                  Panic e \<Rightarrow> Panic e
                | Ret (en, Some err) \<Rightarrow> Ret (Span0, Some err)
                | Ret (en, None) \<Rightarrow> Ret (s\<lparr>sStart := st, sEnd := en\<rparr>, None))
             else Ret (s\<lparr>sStart := st, sEnd := (sEnd s)\<lparr>pOffset := pOffset st\<rparr>\<rparr>, None))
      else Ret (s, None))"

section \<open>Ranges\<close>

text \<open>
  A Range carries a pointer to its \<open>token.File\<close> (\<open>None\<close> is the nil pointer) and two
  token positions.
\<close>

record Range =
  TokFile :: "File option"
  Start :: Pos
  End :: Pos

definition Range0 :: Range where
  "Range0 = \<lparr>TokFile = None, Start = NoPos, End = NoPos\<rparr>"

definition NewRange :: "File option \<Rightarrow> Pos \<Rightarrow> Pos \<Rightarrow> Range outcome" where
  "NewRange file start endp =
     (if file = None then Panic NilTokenFile
      else if \<not> IsValid start then Panic InvalidStartPos
      else Ret \<lparr>TokFile = file, Start = start,
                End = (if \<not> IsValid endp then start else endp)\<rparr>)"

definition IsPoint :: "Range \<Rightarrow> bool" where
  "IsPoint r = (Start r = End r)"

text \<open>
  \<open>FileSpan\<close>. The conversion of a file name to a URI (\<open>URIFromPath\<close>, not among the
  sources) is the parameter \<open>U\<close>. The Span under construction starts as the zero Span.
\<close>

definition FileSpan ::
    "(string \<Rightarrow> string) \<Rightarrow> bool \<Rightarrow> File \<Rightarrow> Pos \<Rightarrow> Pos \<Rightarrow> (Span \<times> error option) outcome" where
  "FileSpan U adj file start endp =
     (if \<not> IsValid start then Ret (Span0, Some ErrStartPosNotValid)
      else
        (case position adj file start of
           Panic e \<Rightarrow> Panic e
         | Ret (startFilename, sl, sc, Some err) \<Rightarrow> Ret (Span0, Some err)
         | Ret (startFilename, sl, sc, None) \<Rightarrow>
             (let s = Span0\<lparr>sStart := point0\<lparr>pLine := sl, pColumn := sc\<rparr>,
                            sURI := U startFilename\<rparr>;
                  finish = (\<lambda>s. WithOffset
                              (span_clean
                                 (s\<lparr>sStart := point_clean (sStart s),
                                    sEnd := point_clean (sEnd s)\<rparr>)) file)
              in if IsValid endp then
                   (case position adj file endp of
                      Panic e \<Rightarrow> Panic e
                    | Ret (endFilename, el, ec, Some err) \<Rightarrow> Ret (Span0, Some err)
                    | Ret (endFilename, el, ec, None) \<Rightarrow>
                        if endFilename \<noteq> startFilename
                        then Ret (Span0, Some (ErrSpanFiles startFilename endFilename))
                        else finish (s\<lparr>sEnd := point0\<lparr>pLine := el, pColumn := ec\<rparr>\<rparr>))
                 else finish s)))"

text \<open>\<open>Range.Span\<close>. A nil file is dereferenced as soon as the start position is looked up.\<close>

definition Range_Span :: "(string \<Rightarrow> string) \<Rightarrow> bool \<Rightarrow> Range \<Rightarrow> (Span \<times> error option) outcome" where
  "Range_Span U adj r =
     (case TokFile r of
        Some file \<Rightarrow> FileSpan U adj file (Start r) (End r)
      | None \<Rightarrow>
          if \<not> IsValid (Start r) then Ret (Span0, Some ErrStartPosNotValid)
          else Panic NilTokenFile)"

text \<open>
  \<open>Span.Range\<close>. \<open>bug.Errorf\<close> (package internal/bug, not among the sources) builds the
  error it returns like \<open>fmt.Errorf\<close>, and reports it on the side.
\<close>

definition Span_Range :: "Span \<Rightarrow> File \<Rightarrow> (Range \<times> error option) outcome" where
  "Span_Range s0 tf =
     (case WithOffset s0 tf of
        Panic e \<Rightarrow> Panic e
      | Ret (s, Some err) \<Rightarrow> Ret (Range0, Some err)
      | Ret (s, None) \<Rightarrow>
          (case Point_Offset (sStart s) of
             Panic e \<Rightarrow> Panic e
           | Ret so \<Rightarrow>
               if so > Size tf then Ret (Range0, Some (BugStartPastEnd so (Size tf)))
               else
                 (case Point_Offset (sEnd s) of
                    Panic e \<Rightarrow> Panic e
                  | Ret eo \<Rightarrow>
                      if eo > Size tf then Ret (Range0, Some (BugEndPastEnd eo (Size tf)))
                      else
                        (case Pos tf so of
                           Panic e \<Rightarrow> Panic e
                         | Ret ps \<Rightarrow>
                             (case Pos tf eo of
                                Panic e \<Rightarrow> Panic e
                              | Ret pe \<Rightarrow>
                                  Ret (\<lparr>TokFile = Some tf, Start = ps, End = pe\<rparr>, None))))))"

section \<open>Well-formed files\<close>

text \<open>
  What go/token maintains for every \<open>token.File\<close>: the base is positive, the size is not
  negative, \<open>base + size\<close> is representable, the line table is strictly increasing, and
  every line starts before the end of the file (the first line of an empty file starts
  at 0).
\<close>

definition File_inv :: "File \<Rightarrow> bool" where
  "File_inv f \<longleftrightarrow>
     1 \<le> f_base f \<and> 0 \<le> f_size f \<and> f_base f + f_size f < 2 ^ 63 \<and>
     sorted_wrt (<) (f_lines f) \<and>
     (\<forall>l \<in> set (f_lines f). 0 \<le> l \<and> (l < f_size f \<or> l = 0))"

text \<open>
  A line table that was filled from the content of the file (by the scanner or by
  \<open>SetLinesForContent\<close>) starts its first line at offset 0, and is empty only for an
  empty file.
\<close>

definition wf_File :: "File \<Rightarrow> bool" where
  "wf_File f \<longleftrightarrow>
     File_inv f \<and> (0 < f_size f \<longrightarrow> f_lines f \<noteq> [] \<and> hd (f_lines f) = 0)"

text \<open>
  Lines and columns are the file's own when the position lookup ignores line
  directives, or when the file has none.
\<close>

definition unadjusted :: "bool \<Rightarrow> File \<Rightarrow> bool" where
  "unadjusted adj f \<longleftrightarrow> (adj \<longrightarrow> f_infos f = [])"

section \<open>Example files\<close>

text \<open>
  The file of the spec's scenario, \<open>"package main\nfunc main() {}\n"\<close>: 28 bytes, lines
  starting at offsets 0 and 13.
\<close>

definition main_go :: File where
  "main_go = \<lparr>f_name = ''main.go'', f_base = 1, f_size = 28, f_lines = [0, 13], f_infos = []\<rparr>"

text \<open>A later, 10-byte generation of the same file, \<open>"package m\n"\<close>.\<close>

definition main_go_short :: File where
  "main_go_short =
     \<lparr>f_name = ''main.go'', f_base = 1, f_size = 10, f_lines = [0], f_infos = []\<rparr>"

text \<open>
  The file \<open>"package a\n//line b.go:1\nvar x int\n"\<close>: 34 bytes, lines starting at offsets
  0, 10 and 24, and a line directive that gives the third line (offset 24) to \<open>b.go\<close>.
\<close>

definition directive_go :: File where
  "directive_go =
     \<lparr>f_name = ''a.go'', f_base = 1, f_size = 34, f_lines = [0, 10, 24],
      f_infos = [\<lparr>iOffset = 24, iFilename = ''b.go'', iLine = 1, iColumn = 0\<rparr>]\<rparr>"

text \<open>The Span of the second line of \<open>main_go\<close> without its newline: offsets 13 to 27.\<close>

definition main_span :: Span where
  "main_span =
     \<lparr>sURI = ''main.go'', sStart = \<lparr>pLine = 2, pColumn = 1, pOffset = 13\<rparr>,
      sEnd = \<lparr>pLine = 2, pColumn = 15, pOffset = 27\<rparr>\<rparr>"

section \<open>The guarded position-to-offset primitive\<close>

text \<open>
  Claim C8. For every file and token position \<open>p\<close>, \<open>offset\<close> returns an error exactly
  when \<open>p\<close> lies outside \<open>[base, base + size]\<close>, and otherwise returns \<open>p - base\<close>
  without error. The function has no panicking branch.
\<close>

theorem offset_guarded:
  "(snd (offset tf p) \<noteq> None \<longleftrightarrow> p < Base tf \<or> Base tf + Size tf < p) \<and>
   (Base tf \<le> p \<and> p \<le> Base tf + Size tf \<longrightarrow> offset tf p = (p - Base tf, None))"
  by (simp add: offset_def)

theorem offset_guarded_witness:
  "snd (offset main_go 30) \<noteq> None \<and> offset main_go 14 = (13, None)"
  using offset_guarded [of main_go 30] offset_guarded [of main_go 14]
  by (simp add: main_go_def Base_def Size_def)

section \<open>The binary search of the line table\<close>

text \<open>When every entry is at most \<open>x\<close>, the search runs to the end of the table.\<close>

lemma searchInts_loop_all_le:
  "i \<le> length a \<Longrightarrow> \<forall>k < length a. a ! k \<le> x \<Longrightarrow> searchInts_loop a x i (length a) = length a"
proof (induction a x i "length a" rule: searchInts_loop.induct)
  case (1 a x i)
  show ?case
  proof (cases "i < length a")
    case True
    then have h: "(i + length a) div 2 < length a" by linarith
    with 1 True show ?thesis
      by (subst searchInts_loop.simps) (simp add: Let_def)
  next
    case False
    with 1 show ?thesis by (subst searchInts_loop.simps) simp
  qed
qed

lemma searchInts_all_le:
  "\<forall>l \<in> set a. l \<le> x \<Longrightarrow> searchInts a x = int (length a) - 1"
  by (simp add: searchInts_def searchInts_loop_all_le)

text \<open>
  One step of the loop, and its invariant on a sorted table: the entries below \<open>i\<close> are
  at most \<open>x\<close>, the entries from \<open>j\<close> on are larger.
\<close>

lemma searchInts_loop_step:
  "searchInts_loop a x i j =
     (if i < j then
        (if a ! ((i + j) div 2) \<le> x then searchInts_loop a x ((i + j) div 2 + 1) j
         else searchInts_loop a x i ((i + j) div 2))
      else i)"
  by (subst searchInts_loop.simps) (simp only: Let_def)

lemma searchInts_loop_spec:
  assumes "sorted a"
  shows "searchInts_loop a x i j = r \<Longrightarrow> i \<le> j \<Longrightarrow> j \<le> length a \<Longrightarrow> \<forall>k < i. a ! k \<le> x \<Longrightarrow>
         \<forall>k. j \<le> k \<and> k < length a \<longrightarrow> x < a ! k \<Longrightarrow>
         i \<le> r \<and> r \<le> j \<and> (\<forall>k < r. a ! k \<le> x) \<and> (\<forall>k. r \<le> k \<and> k < length a \<longrightarrow> x < a ! k)"
  using assms
proof (induction a x i j rule: searchInts_loop.induct)
  case (1 a x i j)
  show ?case
  proof (cases "i < j")
    case False
    then have "searchInts_loop a x i j = i" by (subst searchInts_loop_step) simp
    with 1(3-) False show ?thesis by auto
  next
    case True
    define h where "h = (i + j) div 2"
    have h: "i \<le> h" "h < j" using True by (simp_all add: h_def)
    show ?thesis
    proof (cases "a ! h \<le> x")
      case le: True
      have low: "\<forall>k < h + 1. a ! k \<le> x"
      proof (intro allI impI)
        fix k assume "k < h + 1"
        then have "a ! k \<le> a ! h"
          using \<open>sorted a\<close> h "1.prems"(3) by (auto intro!: sorted_nth_mono)
        with le show "a ! k \<le> x" by simp
      qed
      have eq: "searchInts_loop a x (h + 1) j = r"
        using True le "1.prems"(1) unfolding h_def by (subst (asm) searchInts_loop_step) simp
      have "h + 1 \<le> r \<and> r \<le> j \<and> (\<forall>k < r. a ! k \<le> x) \<and>
            (\<forall>k. r \<le> k \<and> k < length a \<longrightarrow> x < a ! k)"
      proof (rule "1.IH"(1) [OF True h_def le eq])
        show "h + 1 \<le> j" using h by simp
        show "j \<le> length a" by fact
        show "\<forall>k<h + 1. a ! k \<le> x" by (rule low)
        show "\<forall>k. j \<le> k \<and> k < length a \<longrightarrow> x < a ! k" by fact
        show "sorted a" by fact
      qed
      with h show ?thesis by simp
    next
      case gt: False
      have high: "\<forall>k. h \<le> k \<and> k < length a \<longrightarrow> x < a ! k"
      proof (intro allI impI)
        fix k assume "h \<le> k \<and> k < length a"
        then have "a ! h \<le> a ! k"
          using \<open>sorted a\<close> by (auto intro!: sorted_nth_mono)
        with gt show "x < a ! k" by simp
      qed
      have eq: "searchInts_loop a x i h = r"
        using True gt "1.prems"(1) unfolding h_def by (subst (asm) searchInts_loop_step) simp
      have "i \<le> r \<and> r \<le> h \<and> (\<forall>k < r. a ! k \<le> x) \<and>
            (\<forall>k. r \<le> k \<and> k < length a \<longrightarrow> x < a ! k)"
      proof (rule "1.IH"(2) [OF True h_def gt eq])
        show "i \<le> h" using h by simp
        show "h \<le> length a" using h "1.prems"(3) by simp
        show "\<forall>k<i. a ! k \<le> x" by fact
        show "\<forall>k. h \<le> k \<and> k < length a \<longrightarrow> x < a ! k" by (rule high)
        show "sorted a" by fact
      qed
      with h show ?thesis by simp
    qed
  qed
qed

lemma searchInts_sorted:
  assumes "sorted a"
  shows "- 1 \<le> searchInts a x \<and> searchInts a x < int (length a) \<and>
         (0 \<le> searchInts a x \<longrightarrow> a ! nat (searchInts a x) \<le> x) \<and>
         (\<forall>k. nat (searchInts a x + 1) \<le> k \<and> k < length a \<longrightarrow> x < a ! k)"
proof -
  define r where "r = searchInts_loop a x 0 (length a)"
  have "0 \<le> r \<and> r \<le> length a \<and> (\<forall>k < r. a ! k \<le> x) \<and>
        (\<forall>k. r \<le> k \<and> k < length a \<longrightarrow> x < a ! k)"
    by (rule searchInts_loop_spec [OF assms r_def [symmetric]]) simp_all
  moreover have "searchInts a x = int r - 1" by (simp add: searchInts_def r_def)
  moreover have "0 \<le> int r - 1 \<Longrightarrow> nat (int r - 1) < r" by linarith
  ultimately show ?thesis by (auto simp: nat_diff_distrib)
qed

section \<open>Looking up offsets in a well-formed file\<close>

lemma File_inv_lines_le: "File_inv f \<Longrightarrow> \<forall>l \<in> set (f_lines f). l \<le> f_size f"
  by (auto simp: File_inv_def)

lemma File_inv_sorted: "File_inv f \<Longrightarrow> sorted (f_lines f)"
  by (simp add: File_inv_def strict_sorted_imp_sorted)

lemma unpack_at_size:
  assumes "File_inv f" "unadjusted adj f"
  shows "fst (unpack f (f_size f) adj) = f_name f"
    and "fst (snd (unpack f (f_size f) adj)) = int (length (f_lines f))"
  using assms searchInts_all_le [OF File_inv_lines_le [OF assms(1)]]
  by (auto simp: unpack_def unadjusted_def Let_def)

lemma positionFromOffset_at_size:
  assumes "File_inv tf" and "unadjusted adj tf"
  shows "positionFromOffset adj tf (Size tf) = Ret (Name tf, LineCount tf + 1, 1, None)"
proof -
  from assms(1) have b: "1 \<le> f_base tf" "0 \<le> f_size tf" by (simp_all add: File_inv_def)
  have "safetoken_Position adj tf (f_base tf + f_size tf) =
          Ret (position_of tf (f_base tf + f_size tf) adj)"
    using b by (simp add: safetoken_Position_def PositionFor_def NoPos_def Base_def Size_def)
  moreover have "Filename (position_of tf (f_base tf + f_size tf) adj) = f_name tf"
    and "Line (position_of tf (f_base tf + f_size tf) adj) = int (length (f_lines tf))"
    using unpack_at_size [OF assms]
    by (auto simp: position_of_def Let_def split: prod.splits)
  ultimately show ?thesis
    by (simp add: positionFromOffset_def Pos_def Size_def Name_def LineCount_def)
qed

lemma wf_File_search:
  assumes "wf_File f" and "0 \<le> off" and "off < f_size f"
  shows "0 \<le> searchInts (f_lines f) off \<and> searchInts (f_lines f) off < int (length (f_lines f)) \<and>
         0 \<le> f_lines f ! nat (searchInts (f_lines f) off) \<and>
         f_lines f ! nat (searchInts (f_lines f) off) \<le> off"
proof -
  from assms have inv: "File_inv f" and ne: "f_lines f \<noteq> []" and hd0: "hd (f_lines f) = 0"
    by (simp_all add: wf_File_def)
  note s = searchInts_sorted [OF File_inv_sorted [OF inv], of off]
  have nonneg: "0 \<le> searchInts (f_lines f) off"
  proof (rule ccontr)
    assume "\<not> 0 \<le> searchInts (f_lines f) off"
    with s have "searchInts (f_lines f) off = - 1" by simp
    with s ne have "off < f_lines f ! 0" by simp
    with hd0 ne assms(2) show False by (simp add: hd_conv_nth)
  qed
  moreover from s nonneg have "nat (searchInts (f_lines f) off) < length (f_lines f)" by linarith
  then have "f_lines f ! nat (searchInts (f_lines f) off) \<in> set (f_lines f)" by simp
  with inv have "0 \<le> f_lines f ! nat (searchInts (f_lines f) off)" by (simp add: File_inv_def)
  ultimately show ?thesis using s by simp
qed

lemma wrap64_id: "- (2 ^ 63) \<le> x \<Longrightarrow> x < 2 ^ 63 \<Longrightarrow> wrap64 x = x"
  by (simp add: wrap64_def)

lemma positionFromOffset_inside:
  assumes "wf_File tf" and "unadjusted adj tf" and "0 \<le> off" and "off < Size tf"
  shows "positionFromOffset adj tf off =
           Ret (Name tf, searchInts (f_lines tf) off + 1,
                off - f_lines tf ! nat (searchInts (f_lines tf) off) + 1, None)"
proof -
  from assms(1) have inv: "File_inv tf" by (simp add: wf_File_def)
  then have b: "1 \<le> f_base tf" "0 \<le> f_size tf" by (simp_all add: File_inv_def)
  from assms have off: "0 \<le> off" "off < f_size tf" by (simp_all add: Size_def)
  note s = wf_File_search [OF assms(1) off]
  have "safetoken_Position adj tf (f_base tf + off) = Ret (position_of tf (f_base tf + off) adj)"
    using b off by (simp add: safetoken_Position_def PositionFor_def NoPos_def Base_def Size_def)
  moreover have "unpack tf off adj =
      (f_name tf, searchInts (f_lines tf) off + 1,
       off - f_lines tf ! nat (searchInts (f_lines tf) off) + 1)"
    using s assms(2) by (auto simp: unpack_def unadjusted_def Let_def)
  then have "position_of tf (f_base tf + off) adj =
      \<lparr>Filename = f_name tf, Offset = off, Line = searchInts (f_lines tf) off + 1,
       Column = off - f_lines tf ! nat (searchInts (f_lines tf) off) + 1\<rparr>"
    by (simp add: position_of_def Let_def)
  ultimately show ?thesis
    using off by (simp add: positionFromOffset_def Pos_def Size_def Name_def)
qed

lemma ToOffset_inside:
  assumes "wf_File tf" and "0 \<le> off" and "off < Size tf"
  shows "ToOffset tf (searchInts (f_lines tf) off + 1)
           (off - f_lines tf ! nat (searchInts (f_lines tf) off) + 1) = Ret (off, None)"
proof -
  from assms(1) have inv: "File_inv tf" by (simp add: wf_File_def)
  then have b: "1 \<le> f_base tf" "0 \<le> f_size tf" "f_base tf + f_size tf < 2 ^ 63"
    by (simp_all add: File_inv_def)
  from assms have off: "0 \<le> off" "off < f_size tf" by (simp_all add: Size_def)
  note s = wf_File_search [OF assms(1) off]
  define i where "i = searchInts (f_lines tf) off"
  define l where "l = f_lines tf ! nat i"
  from s have i: "0 \<le> i" "i < int (length (f_lines tf))" and l: "0 \<le> l" "l \<le> off"
    by (simp_all add: i_def l_def)
  have ls: "LineStart tf (i + 1) = Ret (f_base tf + l)"
    using i by (simp add: LineStart_def l_def)
  have w1: "wrap64 (off - l + 1 - 1) = off - l"
    using l off b by (intro wrap64_id [THEN trans]) simp_all
  have w2: "wrap64 (f_base tf + l + (off - l)) = f_base tf + off"
    using l off b by (intro wrap64_id [THEN trans]) simp_all
  have nz: "f_base tf + l \<noteq> 0" using b l by simp
  have "ToOffset tf (i + 1) (off - l + 1) = Ret (off, None)"
    using i b off ls w1 w2 nz
    by (simp add: ToOffset_def LineCount_def Let_def IsValid_def NoPos_def Base_def Size_def
        offset_def)
  then show ?thesis by (simp add: i_def l_def)
qed

lemma ToOffset_sentinel: "ToOffset tf (LineCount tf + 1) 1 = Ret (Size tf, None)"
  by (simp add: ToOffset_def LineCount_def Let_def)

section \<open>The end-of-file sentinel\<close>

text \<open>
  Claim C2. For a file that satisfies the invariant of go/token and whose lines are its
  own, \<open>positionFromOffset\<close> at the offset \<open>size\<close> succeeds with the file's name, the
  line \<open>LineCount + 1\<close> (one past the last real line) and column 1. For every file and
  every offset larger than the size it fails with the beyond-EOF error.
\<close>

theorem positionFromOffset_eof:
  "(File_inv tf \<and> unadjusted adj tf \<longrightarrow>
      positionFromOffset adj tf (Size tf) = Ret (Name tf, LineCount tf + 1, 1, None)) \<and>
   (off > Size tf \<longrightarrow>
      positionFromOffset adj tf off =
        Ret ([], 0, 0, Some (ErrBeyondEOF off (Size tf) (Name tf))))"
  using positionFromOffset_at_size [of tf adj] by (simp add: positionFromOffset_def)

theorem positionFromOffset_eof_witness:
  "positionFromOffset False main_go 28 = Ret (''main.go'', 3, 1, None) \<and>
   positionFromOffset False main_go 29 = Ret ([], 0, 0, Some (ErrBeyondEOF 29 28 ''main.go''))"
proof -
  have inv: "File_inv main_go" by (simp add: File_inv_def main_go_def)
  have un: "unadjusted False main_go" by (simp add: unadjusted_def)
  show ?thesis
    using positionFromOffset_eof [of main_go False 29] inv un
    by (simp add: main_go_def Size_def Name_def LineCount_def)
qed

section \<open>Validation in \<open>ToOffset\<close>\<close>

text \<open>
  Claim C3. For every file: a line below 1 fails with the invalid-line error; a line
  above \<open>LineCount + 1\<close> fails with the beyond-end-of-file error; on the sentinel line
  \<open>LineCount + 1\<close>, column 1 yields exactly the size of the file, and every column above
  1 fails with the column-beyond-end-of-file error.
\<close>

theorem ToOffset_validation:
  "(line < 1 \<longrightarrow> ToOffset tf line col = Ret (- 1, Some (ErrInvalidLine line))) \<and>
   (line > LineCount tf + 1 \<longrightarrow>
      ToOffset tf line col = Ret (- 1, Some (ErrLineBeyondEOF line (LineCount tf + 1)))) \<and>
   ToOffset tf (LineCount tf + 1) 1 = Ret (Size tf, None) \<and>
   (col > 1 \<longrightarrow> ToOffset tf (LineCount tf + 1) col = Ret (- 1, Some ErrColumnBeyondEOF))"
  by (simp add: ToOffset_def LineCount_def Let_def)

theorem ToOffset_validation_witness:
  "ToOffset main_go 0 1 = Ret (- 1, Some (ErrInvalidLine 0)) \<and>
   ToOffset main_go 100 1 = Ret (- 1, Some (ErrLineBeyondEOF 100 3)) \<and>
   ToOffset main_go 3 1 = Ret (28, None) \<and>
   ToOffset main_go 3 2 = Ret (- 1, Some ErrColumnBeyondEOF)"
  using ToOffset_validation [of 0 main_go 1] ToOffset_validation [of 100 main_go 1]
    ToOffset_validation [of 1 main_go 2]
  by (simp add: main_go_def LineCount_def Size_def)

text \<open>
  Claim C10. The offset that \<open>ToOffset\<close> returns next to an error is not uniform. The
  invalid-line path, the line-beyond-EOF path and the column path of the sentinel line
  return \<open>-1\<close>. The path on which the start of the line plus \<open>col - 1\<close> lies beyond
  \<open>base + size\<close> returns \<open>0\<close>, which is also what a successful conversion of the
  position \<open>base\<close> returns. Only the error tells a failure from a success.
\<close>

theorem ToOffset_failure_offsets:
  "(line < 1 \<longrightarrow> (\<exists>e. ToOffset tf line col = Ret (- 1, Some e))) \<and>
   (line > LineCount tf + 1 \<longrightarrow> (\<exists>e. ToOffset tf line col = Ret (- 1, Some e))) \<and>
   (line = LineCount tf + 1 \<and> col > 1 \<longrightarrow> (\<exists>e. ToOffset tf line col = Ret (- 1, Some e))) \<and>
   (1 \<le> line \<and> line \<le> LineCount tf \<and> IsValid (f_base tf + f_lines tf ! nat (line - 1)) \<and>
    wrap64 (f_base tf + f_lines tf ! nat (line - 1) + wrap64 (col - 1)) > Base tf + Size tf
      \<longrightarrow> ToOffset tf line col = Ret (0, Some (ErrToOffsetColumn col))) \<and>
   (0 \<le> Size tf \<longrightarrow> offset tf (Base tf) = (0, None))"
  by (simp add: ToOffset_def LineCount_def LineStart_def Let_def offset_def)

theorem ToOffset_failure_offsets_witness:
  "ToOffset main_go 0 1 = Ret (- 1, Some (ErrInvalidLine 0)) \<and>
   ToOffset main_go 100 1 = Ret (- 1, Some (ErrLineBeyondEOF 100 3)) \<and>
   ToOffset main_go 3 2 = Ret (- 1, Some ErrColumnBeyondEOF) \<and>
   ToOffset main_go 1 100 = Ret (0, Some (ErrToOffsetColumn 100)) \<and>
   ToOffset main_go 1 1 = Ret (0, None)"
proof -
  have "ToOffset main_go 1 100 = Ret (0, Some (ErrToOffsetColumn 100))"
    using ToOffset_failure_offsets [of 1 main_go 100]
    by (simp add: main_go_def LineCount_def Size_def Base_def IsValid_def NoPos_def wrap64_def)
  moreover have "ToOffset main_go 1 1 = Ret (0, None)"
    by (simp add: ToOffset_def main_go_def LineCount_def LineStart_def Size_def Base_def
        IsValid_def NoPos_def wrap64_def offset_def Let_def)
  moreover have "ToOffset main_go 0 1 = Ret (- 1, Some (ErrInvalidLine 0))"
    by (simp add: ToOffset_def)
  moreover have "ToOffset main_go 100 1 = Ret (- 1, Some (ErrLineBeyondEOF 100 3))"
    by (simp add: ToOffset_def main_go_def LineCount_def)
  moreover have "ToOffset main_go 3 2 = Ret (- 1, Some ErrColumnBeyondEOF)"
    by (simp add: ToOffset_def main_go_def LineCount_def)
  ultimately show ?thesis by simp
qed

section \<open>Offsets to lines and columns, and back\<close>

text \<open>
  Claim C1. For every well-formed file whose lines are its own and every offset \<open>off\<close>
  with \<open>0 \<le> off \<le> size\<close>, \<open>OffsetToLineCol8\<close> succeeds, and \<open>ToOffset\<close> on the line and
  column it returns succeeds and returns \<open>off\<close>.
\<close>

theorem offset_line_column_roundtrip:
  assumes "wf_File tf" and "unadjusted adj tf" and "0 \<le> off" and "off \<le> Size tf"
  shows "\<exists>line col. OffsetToLineCol8 adj tf off = Ret (line, col, None) \<and>
                    ToOffset tf line col = Ret (off, None)"
proof (cases "off = Size tf")
  case True
  from assms(1) have inv: "File_inv tf" by (simp add: wf_File_def)
  have "positionFromOffset adj tf off = Ret (Name tf, LineCount tf + 1, 1, None)"
    using positionFromOffset_at_size [OF inv assms(2)] True by simp
  then have "OffsetToLineCol8 adj tf off = Ret (LineCount tf + 1, 1, None)"
    by (simp add: OffsetToLineCol8_def)
  with True ToOffset_sentinel [of tf] show ?thesis by simp
next
  case False
  with assms have lt: "off < Size tf" by simp
  have "OffsetToLineCol8 adj tf off =
          Ret (searchInts (f_lines tf) off + 1,
               off - f_lines tf ! nat (searchInts (f_lines tf) off) + 1, None)"
    using positionFromOffset_inside [OF assms(1,2,3) lt] by (simp add: OffsetToLineCol8_def)
  with ToOffset_inside [OF assms(1,3) lt] show ?thesis by simp
qed

theorem offset_line_column_roundtrip_witness:
  "OffsetToLineCol8 False main_go 0 = Ret (1, 1, None) \<and> ToOffset main_go 1 1 = Ret (0, None) \<and>
   OffsetToLineCol8 False main_go 13 = Ret (2, 1, None) \<and> ToOffset main_go 2 1 = Ret (13, None) \<and>
   OffsetToLineCol8 False main_go 28 = Ret (3, 1, None) \<and> ToOffset main_go 3 1 = Ret (28, None)"
proof -
  have wf: "wf_File main_go" by (simp add: wf_File_def File_inv_def main_go_def)
  have un: "unadjusted False main_go" by (simp add: unadjusted_def)
  have sz: "Size main_go = 28" by (simp add: Size_def main_go_def)
  have a: "OffsetToLineCol8 False main_go 0 = Ret (1, 1, None)"
    and b: "OffsetToLineCol8 False main_go 13 = Ret (2, 1, None)"
    and c: "OffsetToLineCol8 False main_go 28 = Ret (3, 1, None)"
    by code_simp+
  from offset_line_column_roundtrip [OF wf un, of 0] a
  have "ToOffset main_go 1 1 = Ret (0, None)" by (simp add: sz)
  moreover from offset_line_column_roundtrip [OF wf un, of 13] b
  have "ToOffset main_go 2 1 = Ret (13, None)" by (simp add: sz)
  moreover from offset_line_column_roundtrip [OF wf un, of 28] c
  have "ToOffset main_go 3 1 = Ret (28, None)" by (simp add: sz)
  ultimately show ?thesis using a b c by simp
qed

text \<open>
  The hypothesis on line directives is needed. When the lookup applies them, offset 28
  of \<open>directive_go\<close> has the line and column of the directive, which do not convert
  back.
\<close>

lemma directive_go_adjusted:
  "OffsetToLineCol8 True directive_go 28 = Ret (1, 0, None) \<and>
   ToOffset directive_go 1 0 = Ret (0, Some (ErrInvalidPos 0 1 35))"
  by code_simp

section \<open>Constructing a Range\<close>

text \<open>
  Claim C5, as the code has it. \<open>NewRange\<close> panics when the file is nil, and when the
  start is \<open>NoPos\<close>. Every other start is accepted and returned as the start of the
  Range, whether or not it lies in the range of the file.
\<close>

theorem NewRange_panics:
  "NewRange None start endp = Panic NilTokenFile \<and>
   NewRange (Some f) NoPos endp = Panic InvalidStartPos \<and>
   (start \<noteq> NoPos \<longrightarrow>
      NewRange (Some f) start endp =
        Ret \<lparr>TokFile = Some f, Start = start,
             End = (if endp = NoPos then start else endp)\<rparr>)"
  by (simp add: NewRange_def IsValid_def)

theorem NewRange_panics_witness:
  "NewRange None 5 7 = Panic NilTokenFile \<and>
   NewRange (Some main_go) 0 7 = Panic InvalidStartPos \<and>
   NewRange (Some main_go) 5 7 = Ret \<lparr>TokFile = Some main_go, Start = 5, End = 7\<rparr> \<and>
   NewRange (Some main_go) 100 7 = Ret \<lparr>TokFile = Some main_go, Start = 100, End = 7\<rparr>"
  using NewRange_panics [of 5 7 main_go] NewRange_panics [of 0 7 main_go]
    NewRange_panics [of 100 7 main_go]
  by (simp add: NoPos_def)

text \<open>
  The position 100 is outside the range \<open>[1, 29]\<close> of \<open>main_go\<close>, and \<open>NewRange\<close>
  returns a Range for it.
\<close>

theorem NewRange_start_outside_file:
  "\<not> (Base main_go \<le> 100 \<and> 100 \<le> Base main_go + Size main_go) \<and>
   NewRange (Some main_go) 100 100 = Ret \<lparr>TokFile = Some main_go, Start = 100, End = 100\<rparr>"
  by (simp add: NewRange_def IsValid_def NoPos_def Base_def Size_def main_go_def)

text \<open>
  Claim C7. For a non-nil file and a valid start, \<open>NewRange\<close> with an invalid end
  returns a Range whose end is its start, so \<open>IsPoint\<close> holds of it.
\<close>

theorem NewRange_invalid_end:
  assumes "IsValid start" and "\<not> IsValid endp"
  shows "\<exists>r. NewRange (Some f) start endp = Ret r \<and> TokFile r = Some f \<and>
              Start r = start \<and> End r = start \<and> IsPoint r"
  using assms by (simp add: NewRange_def IsPoint_def)

theorem NewRange_invalid_end_witness:
  "IsValid 5 \<and> \<not> IsValid NoPos \<and>
   NewRange (Some main_go) 5 NoPos = Ret \<lparr>TokFile = Some main_go, Start = 5, End = 5\<rparr> \<and>
   IsPoint \<lparr>TokFile = Some main_go, Start = 5, End = 5\<rparr>"
proof -
  have v: "IsValid 5" and nv: "\<not> IsValid NoPos" by (simp_all add: IsValid_def NoPos_def)
  obtain r where r: "NewRange (Some main_go) 5 NoPos = Ret r" "TokFile r = Some main_go"
    "Start r = 5" "End r = 5" "IsPoint r"
    using NewRange_invalid_end [OF v nv, of main_go] by blast
  then have "r = \<lparr>TokFile = Some main_go, Start = 5, End = 5\<rparr>" by simp
  with r v nv show ?thesis by simp
qed

section \<open>Spans across two files\<close>





section \<open>Spans against a shorter file\<close>

lemma main_span_FileSpan: "FileSpan id False main_go 14 28 = Ret (main_span, None)"
  by code_simp

lemma ToOffset_nonneg:
  assumes "0 \<le> Size tf" and "ToOffset tf l c = Ret (off, None)"
  shows "0 \<le> off"
  using assms
  by (auto simp: ToOffset_def Let_def offset_def split: if_splits outcome.splits)

lemma WithOffset_start_hasOffset:
  assumes "0 \<le> Size tf" and "WithOffset s tf = Ret (s', None)"
  shows "hasOffset (sStart s')"
proof (cases "\<not> hasOffset (sStart s) \<or> (hasPosition (sEnd s) \<and> \<not> hasOffset (sEnd s))")
  case False
  with assms(2) show ?thesis by (auto simp: WithOffset_def split: if_splits)
next
  case True
  with assms(2) obtain off where "ToOffset tf (pLine (sStart s)) (pColumn (sStart s)) = Ret (off, None)"
    and "pOffset (sStart s') = off"
    by (auto simp: WithOffset_def updateOffset_def
        split: if_splits outcome.splits prod.splits option.splits)
  with ToOffset_nonneg [OF assms(1)] show ?thesis by (simp add: hasOffset_def)
qed

text \<open>
  Claim C4. For every Span and every file: when the offsets of the Span resolve against
  the file and the resolved start or end offset is larger than the size of the file,
  \<open>Span_Range\<close> returns, with the zero Range and the past-the-end error of the start or
  of the end. It does not panic.
\<close>

theorem Span_Range_stale:
  assumes "0 \<le> Size tf"
    and "WithOffset s tf = Ret (s', None)"
    and "pOffset (sStart s') > Size tf \<or> pOffset (sEnd s') > Size tf"
  shows "Span_Range s tf =
           Ret (Range0,
                Some (if pOffset (sStart s') > Size tf
                      then BugStartPastEnd (pOffset (sStart s')) (Size tf)
                      else BugEndPastEnd (pOffset (sEnd s')) (Size tf)))"
  using assms WithOffset_start_hasOffset [OF assms(1,2)]
  by (auto simp: Span_Range_def Point_Offset_def hasOffset_def)

theorem Span_Range_stale_witness:
  "FileSpan id False main_go 14 28 = Ret (main_span, None) \<and>
   Size main_go_short = 10 \<and>
   WithOffset main_span main_go_short = Ret (main_span, None) \<and>
   Span_Range main_span main_go_short = Ret (Range0, Some (BugStartPastEnd 13 10))"
proof -
  have sz: "Size main_go_short = 10" by (simp add: Size_def main_go_short_def)
  have w: "WithOffset main_span main_go_short = Ret (main_span, None)"
    by (simp add: WithOffset_def main_span_def isValid_def hasOffset_def hasPosition_def)
  have "Span_Range main_span main_go_short = Ret (Range0, Some (BugStartPastEnd 13 10))"
    using Span_Range_stale [of main_go_short main_span main_span] w sz
    by (simp add: main_span_def)
  with sz w main_span_FileSpan show ?thesis by simp
qed

section \<open>From a Range to a Span and back\<close>

lemma position_valid:
  assumes "wf_File tf" and "unadjusted adj tf" and "Base tf \<le> p" and "p \<le> Base tf + Size tf"
  shows "\<exists>l c. position adj tf p = Ret (Name tf, l, c, None) \<and> 1 \<le> l \<and> 1 \<le> c \<and>
               ToOffset tf l c = Ret (p - Base tf, None)"
proof -
  define off where "off = p - Base tf"
  from assms have off: "0 \<le> off" "off \<le> Size tf" by (simp_all add: off_def)
  have pos: "position adj tf p = positionFromOffset adj tf off"
    using assms(3,4) by (simp add: position_def offset_def off_def)
  from assms(1) have inv: "File_inv tf" by (simp add: wf_File_def)
  show ?thesis
  proof (cases "off = Size tf")
    case True
    have "positionFromOffset adj tf off = Ret (Name tf, LineCount tf + 1, 1, None)"
      using positionFromOffset_at_size [OF inv assms(2)] True by simp
    moreover have "1 \<le> LineCount tf + 1" by (simp add: LineCount_def)
    ultimately show ?thesis
      using pos True ToOffset_sentinel [of tf] by (simp add: off_def)
  next
    case False
    with off have lt: "off < Size tf" by simp
    then have lt': "off < f_size tf" by (simp add: Size_def)
    note s = wf_File_search [OF assms(1) off(1) lt']
    from s have "1 \<le> searchInts (f_lines tf) off + 1"
      and "1 \<le> off - f_lines tf ! nat (searchInts (f_lines tf) off) + 1" by simp_all
    then show ?thesis
      using pos positionFromOffset_inside [OF assms(1,2) off(1) lt]
        ToOffset_inside [OF assms(1) off(1) lt]
      by (simp add: off_def)
  qed
qed

lemma ToOffset_first:
  assumes "wf_File tf"
  shows "ToOffset tf 1 1 = Ret (0, None)"
proof (cases "f_lines tf")
  case Nil
  with assms have "f_size tf = 0" by (auto simp: wf_File_def File_inv_def)
  with Nil show ?thesis by (simp add: ToOffset_def LineCount_def Size_def)
next
  case (Cons l ls)
  from assms have inv: "File_inv tf" by (simp add: wf_File_def)
  then have b: "1 \<le> f_base tf" "0 \<le> f_size tf" "f_base tf + f_size tf < 2 ^ 63"
    by (simp_all add: File_inv_def)
  have "l = 0"
  proof (cases "0 < f_size tf")
    case True
    with assms Cons show ?thesis by (simp add: wf_File_def)
  next
    case False
    with inv Cons show ?thesis by (auto simp: File_inv_def)
  qed
  moreover have "wrap64 (f_base tf) = f_base tf" using b by (intro wrap64_id) simp_all
  ultimately show ?thesis
    using Cons b
    by (simp add: ToOffset_def LineCount_def LineStart_def IsValid_def NoPos_def wrap64_def
        Base_def Size_def offset_def Let_def)
qed

lemma point_clean_position:
  "1 \<le> l \<Longrightarrow> 1 \<le> c \<Longrightarrow>
   point_clean \<lparr>pLine = l, pColumn = c, pOffset = 0\<rparr> =
     \<lparr>pLine = l, pColumn = c, pOffset = (if l = 1 \<and> c = 1 then 0 else - 1)\<rparr>"
  by (auto simp: point_clean_def Let_def)

lemma WithOffset_resolve:
  assumes t1: "ToOffset tf l1 c1 = Ret (o1, None)" and t2: "ToOffset tf l2 c2 = Ret (o2, None)"
    and first: "ToOffset tf 1 1 = Ret (0, None)"
    and pos: "1 \<le> l1" "1 \<le> c1" "1 \<le> l2" "1 \<le> c2"
  shows "WithOffset
           (span_clean \<lparr>sURI = u,
              sStart = point_clean \<lparr>pLine = l1, pColumn = c1, pOffset = 0\<rparr>,
              sEnd = point_clean \<lparr>pLine = l2, pColumn = c2, pOffset = 0\<rparr>\<rparr>) tf =
         Ret (\<lparr>sURI = u, sStart = \<lparr>pLine = l1, pColumn = c1, pOffset = o1\<rparr>,
               sEnd = \<lparr>pLine = l2, pColumn = c2, pOffset = o2\<rparr>\<rparr>, None)"
proof -
  define e1 where "e1 = (if l1 = 1 \<and> c1 = 1 then 0 else - 1 :: int)"
  define e2 where "e2 = (if l2 = 1 \<and> c2 = 1 then 0 else - 1 :: int)"
  have clean: "span_clean \<lparr>sURI = u,
              sStart = point_clean \<lparr>pLine = l1, pColumn = c1, pOffset = 0\<rparr>,
              sEnd = point_clean \<lparr>pLine = l2, pColumn = c2, pOffset = 0\<rparr>\<rparr> =
        \<lparr>sURI = u, sStart = \<lparr>pLine = l1, pColumn = c1, pOffset = e1\<rparr>,
         sEnd = \<lparr>pLine = l2, pColumn = c2, pOffset = e2\<rparr>\<rparr>"
    using pos
    by (simp add: point_clean_position span_clean_def isValid_def hasPosition_def point0_def
        e1_def e2_def)
  have o1: "l1 = 1 \<and> c1 = 1 \<Longrightarrow> o1 = 0" using t1 first by simp
  have o2: "l2 = 1 \<and> c2 = 1 \<Longrightarrow> o2 = 0" using t2 first by simp
  have same: "l2 = l1 \<and> c2 = c1 \<Longrightarrow> o2 = o1" using t1 t2 by simp
  show ?thesis
    unfolding clean
    using pos t1 t2 o1 o2 same
    by (auto simp: WithOffset_def updateOffset_def isValid_def hasPosition_def hasOffset_def
        e1_def e2_def)
qed

lemma FileSpan_valid:
  assumes wf: "wf_File tf" and un: "unadjusted adj tf"
    and p1: "Base tf \<le> p1" "p1 \<le> Base tf + Size tf"
    and p2: "Base tf \<le> p2" "p2 \<le> Base tf + Size tf"
  shows "\<exists>l1 c1 l2 c2. 1 \<le> l1 \<and> 1 \<le> l2 \<and>
           FileSpan U adj tf p1 p2 =
             Ret (\<lparr>sURI = U (Name tf),
                   sStart = \<lparr>pLine = l1, pColumn = c1, pOffset = p1 - Base tf\<rparr>,
                   sEnd = \<lparr>pLine = l2, pColumn = c2, pOffset = p2 - Base tf\<rparr>\<rparr>, None)"
proof -
  from wf have "1 \<le> Base tf" by (simp add: wf_File_def File_inv_def Base_def)
  with p1 p2 have v: "IsValid p1" "IsValid p2" by (simp_all add: IsValid_def NoPos_def)
  obtain l1 c1 where a: "position adj tf p1 = Ret (Name tf, l1, c1, None)" "1 \<le> l1" "1 \<le> c1"
    "ToOffset tf l1 c1 = Ret (p1 - Base tf, None)"
    using position_valid [OF wf un p1] by blast
  obtain l2 c2 where b: "position adj tf p2 = Ret (Name tf, l2, c2, None)" "1 \<le> l2" "1 \<le> c2"
    "ToOffset tf l2 c2 = Ret (p2 - Base tf, None)"
    using position_valid [OF wf un p2] by blast
  note w = WithOffset_resolve [OF a(4) b(4) ToOffset_first [OF wf] a(2,3) b(2,3), of "U (Name tf)"]
  have "FileSpan U adj tf p1 p2 =
          Ret (\<lparr>sURI = U (Name tf),
                sStart = \<lparr>pLine = l1, pColumn = c1, pOffset = p1 - Base tf\<rparr>,
                sEnd = \<lparr>pLine = l2, pColumn = c2, pOffset = p2 - Base tf\<rparr>\<rparr>, None)"
    using v a(1) b(1) w by (simp add: FileSpan_def Let_def Span0_def point0_def)
  with a(2) b(2) show ?thesis by blast
qed

lemma Span_Range_resolved:
  assumes "0 \<le> o1" "o1 \<le> Size tf" "0 \<le> o2" "o2 \<le> Size tf"
  shows "Span_Range \<lparr>sURI = u, sStart = \<lparr>pLine = l1, pColumn = c1, pOffset = o1\<rparr>,
                      sEnd = \<lparr>pLine = l2, pColumn = c2, pOffset = o2\<rparr>\<rparr> tf =
         Ret (\<lparr>TokFile = Some tf, Start = Base tf + o1, End = Base tf + o2\<rparr>, None)"
  using assms
  by (simp add: Span_Range_def WithOffset_def isValid_def hasOffset_def Point_Offset_def
      Pos_def Size_def Base_def)

text \<open>
  Claim C9. For every Range over a well-formed file whose lines are its own, with start
  and end in \<open>[base, base + size]\<close>: \<open>Range_Span\<close> succeeds, and \<open>Span_Range\<close> of the
  resulting Span against the same file succeeds and returns the start and the end of
  the Range.
\<close>

theorem Range_Span_Range_roundtrip:
  assumes "wf_File tf" and "unadjusted adj tf"
    and "TokFile r = Some tf"
    and "Base tf \<le> Start r" and "Start r \<le> Base tf + Size tf"
    and "Base tf \<le> End r" and "End r \<le> Base tf + Size tf"
  shows "\<exists>s. Range_Span U adj r = Ret (s, None) \<and>
             Span_Range s tf = Ret (\<lparr>TokFile = Some tf, Start = Start r, End = End r\<rparr>, None)"
proof -
  obtain l1 c1 l2 c2 where
    fs: "FileSpan U adj tf (Start r) (End r) =
           Ret (\<lparr>sURI = U (Name tf),
                 sStart = \<lparr>pLine = l1, pColumn = c1, pOffset = Start r - Base tf\<rparr>,
                 sEnd = \<lparr>pLine = l2, pColumn = c2, pOffset = End r - Base tf\<rparr>\<rparr>, None)"
    using FileSpan_valid [OF assms(1,2,4,5,6,7), of U] by blast
  have "Span_Range \<lparr>sURI = U (Name tf),
                 sStart = \<lparr>pLine = l1, pColumn = c1, pOffset = Start r - Base tf\<rparr>,
                 sEnd = \<lparr>pLine = l2, pColumn = c2, pOffset = End r - Base tf\<rparr>\<rparr> tf =
        Ret (\<lparr>TokFile = Some tf, Start = Start r, End = End r\<rparr>, None)"
    using Span_Range_resolved [of "Start r - Base tf" tf "End r - Base tf" "U (Name tf)" l1 c1 l2 c2]
      assms(4-7) by simp
  with fs assms(3) show ?thesis by (simp add: Range_Span_def)
qed

theorem Range_Span_Range_roundtrip_witness:
  "Range_Span id False \<lparr>TokFile = Some main_go, Start = 14, End = 28\<rparr> = Ret (main_span, None) \<and>
   Span_Range main_span main_go = Ret (\<lparr>TokFile = Some main_go, Start = 14, End = 28\<rparr>, None)"
proof -
  have wf: "wf_File main_go" by (simp add: wf_File_def File_inv_def main_go_def)
  have un: "unadjusted False main_go" by (simp add: unadjusted_def)
  have rs: "Range_Span id False \<lparr>TokFile = Some main_go, Start = 14, End = 28\<rparr> =
              Ret (main_span, None)"
    using main_span_FileSpan by (simp add: Range_Span_def)
  from Range_Span_Range_roundtrip [OF wf un, of "\<lparr>TokFile = Some main_go, Start = 14, End = 28\<rparr>" id]
  obtain s where "Range_Span id False \<lparr>TokFile = Some main_go, Start = 14, End = 28\<rparr> = Ret (s, None)"
    and "Span_Range s main_go = Ret (\<lparr>TokFile = Some main_go, Start = 14, End = 28\<rparr>, None)"
    by (auto simp: main_go_def Base_def Size_def)
  with rs show ?thesis by simp
qed

end
